theory Spec2Isabelle
  imports Main "HOL-Library.AList"
begin

section \<open>Python primitives used by the sources\<close>

text \<open>
  Exceptions are values. The constructors name the exception classes that the modelled
  code raises or catches itself; \<open>Exception\<close> stands for any other subclass of Python's
  \<open>Exception\<close> raised by a collaborator, with its message.
\<close>

datatype exn =
    TypeError
  | UnboundLocalError
  | AttributeError
  | KeyError string
  | ModuleNotFoundError string
  | Exception string

text \<open>\<open>os.path.sep\<close> on POSIX.\<close>

definition sep :: char where
  "sep = CHR ''/''"

text \<open>\<open>s.startswith(p)\<close>.\<close>

definition startswith :: "string \<Rightarrow> string \<Rightarrow> bool" where
  "startswith s p = (take (length p) s = p)"

text \<open>
  \<open>s.replace(old, new)\<close>: every non-overlapping occurrence of \<open>old\<close>, scanning from the
  left, is replaced. With an empty \<open>old\<close>, Python inserts \<open>new\<close> before every character and
  at the end.
\<close>

function replace :: "string \<Rightarrow> string \<Rightarrow> string \<Rightarrow> string" where
  "replace [] old new = (if old = [] then new else [])"
| "replace (c # cs) old new =
     (if old = [] then new @ c # replace cs old new
      else if startswith (c # cs) old
        then new @ replace (drop (length old) (c # cs)) old new
      else c # replace cs old new)"
  by pat_completeness auto
termination
  by (relation "measure (\<lambda>(s, old, new). length s)") auto

text \<open>\<open>s.split(os.path.sep)\<close>: splitting at a one-character separator; never empty.\<close>

fun split :: "string \<Rightarrow> char \<Rightarrow> string list" where
  "split [] d = [[]]"
| "split (c # cs) d =
     (if c = d then [] # split cs d
      else (case split cs d of
              [] \<Rightarrow> [[c]]
            | x # xs \<Rightarrow> (c # x) # xs))"

text \<open>
  \<open>os.path.dirname(p)\<close> of \<open>posixpath\<close>: the head is everything up to and including the
  last separator; unless the head consists of separators only, its trailing separators
  are stripped.
\<close>

definition rstrip_sep :: "string \<Rightarrow> string" where
  "rstrip_sep s = rev (dropWhile (\<lambda>c. c = sep) (rev s))"

definition dirname :: "string \<Rightarrow> string" where
  "dirname p =
     (let head = rev (dropWhile (\<lambda>c. c \<noteq> sep) (rev p))
      in if head \<noteq> [] \<and> \<not> list_all (\<lambda>c. c = sep) head then rstrip_sep head else head)"

text \<open>\<open>os.path.join(a, b)\<close> of \<open>posixpath\<close> for two components.\<close>

definition path_join :: "string \<Rightarrow> string \<Rightarrow> string" where
  "path_join a b =
     (if startswith b [sep] then b
      else if a = [] \<or> (a \<noteq> [] \<and> last a = sep) then a @ b
      else a @ [sep] @ b)"

text \<open>JSON values, as \<open>jsonify\<close> renders them and \<open>json.loads\<close> reads them back.\<close>

datatype json =
    JNull
  | JBool bool
  | JInt int
  | JStr string
  | JList "json list"
  | JDict "(string \<times> json) list"

text \<open>\<open>d.get(k, default)\<close> on a dictionary kept as an association list.\<close>

definition dict_get :: "('k \<times> 'v) list \<Rightarrow> 'k \<Rightarrow> 'v \<Rightarrow> 'v" where
  "dict_get d k dflt = (case map_of d k of None \<Rightarrow> dflt | Some v \<Rightarrow> v)"

text \<open>\<open>k in d\<close> on a dictionary.\<close>

definition dict_mem :: "'k \<Rightarrow> ('k \<times> 'v) list \<Rightarrow> bool" where
  "dict_mem k d = (map_of d k \<noteq> None)"


section \<open>Task discovery (\<open>jinjamator/daemon/api/endpoints/tasks.py\<close>)\<close>

text \<open>
  The task runtime (\<open>JinjamatorTask\<close>) is a collaborator outside the modelled sources. Its
  object is an abstract value \<open>'t\<close>; each call either raises or yields the updated object.
\<close>

record 't task_runtime =
  JinjamatorTask :: "exn + 't"
  merge_dict :: "'t \<Rightarrow> exn + 't"
  merge_yaml :: "string \<Rightarrow> 't \<Rightarrow> exn + 't"
  load :: "string \<Rightarrow> 't \<Rightarrow> exn + 't"
  get_jsonform_schema :: "'t \<Rightarrow> exn + (string \<times> json) list"

text \<open>The descriptor \<open>task_info\<close> built at lines 44--50.\<close>

record task_info =
  task_id :: string
  path :: string
  base_dir :: string
  description :: string

text \<open>A route added by \<open>ns.route(f"/{path}", endpoint=path)\<close>.\<close>

record route =
  rule :: string
  endpoint :: string

text \<open>The calls to \<open>log.info\<close> and \<open>log.error\<close> of \<open>discover_tasks\<close>, as events.\<close>

datatype log_record =
    Registred_model string
  | Unable_to_register string exn

text \<open>
  The module-level tables \<open>available_tasks_by_path\<close> and \<open>task_models\<close> (Python
  dictionaries: insertion-ordered, assignment to a present key keeps its position), the
  routes of the namespace and the log.
\<close>

record registry =
  available_tasks_by_path :: "(string \<times> task_info) list"
  task_models :: "(string \<times> string \<times> json) list"
  routes :: "route list"
  logged :: "log_record list"

text \<open>
  The other collaborators of \<open>discover_tasks\<close>: recursive \<open>glob.glob\<close> as a function of its
  pattern, the \<open>xxh64\<close> hex digest, the documentation extractor (it may raise, or return
  \<open>None\<close> or a string), and whether adding a route with a given endpoint to the routes
  present raises.
\<close>

record 't discovery_env =
  runtime :: "'t task_runtime"
  glob :: "string \<Rightarrow> string list"
  xxh64_hexdigest :: "string \<Rightarrow> string"
  get_section_from_task_doc :: "string \<Rightarrow> exn + string option"
  ns_route :: "route list \<Rightarrow> route \<Rightarrow> exn option"

text \<open>Lines 34--38: the loop over the chunks of the path that computes \<open>append\<close>.\<close>

fun append_flag :: "string list \<Rightarrow> bool" where
  "append_flag [] = True"
| "append_flag (dir_chunk # rest) =
     (if startswith dir_chunk ''.'' \<or> dir_chunk \<in> set [''__pycache__''] then False
      else append_flag rest)"

text \<open>Line 42.\<close>

definition dir_name_of :: "string \<Rightarrow> string \<Rightarrow> string" where
  "dir_name_of tasks_base_dir task_dir = drop 1 (replace task_dir tasks_base_dir [])"

text \<open>\<open>x or 'no description'\<close>: \<open>None\<close> and the empty string are falsy.\<close>

definition or_no_description :: "string option \<Rightarrow> string" where
  "or_no_description x =
     (case x of None \<Rightarrow> ''no description''
      | Some s \<Rightarrow> if s = [] then ''no description'' else s)"

text \<open>
  Lines 54--59: a fresh task object is configured and loaded from the base directory
  joined with the relative path, and the \<open>schema\<close> section of its form schema is taken
  (a \<open>KeyError\<close> when the section is missing) and sent through \<open>jsonify\<close> and
  \<open>json.loads\<close>, which give back a schema that is JSON already. The call of \<open>log.debug\<close>
  at line 55 is not recorded.
\<close>

definition synthesize :: "'t task_runtime \<Rightarrow> task_info \<Rightarrow> exn + json" where
  "synthesize rt info =
     (case JinjamatorTask rt of Inl e \<Rightarrow> Inl e | Inr t0 \<Rightarrow>
     (case merge_dict rt t0 of Inl e \<Rightarrow> Inl e | Inr t1 \<Rightarrow>
     (case load rt (path_join (base_dir info) (path info)) t1 of Inl e \<Rightarrow> Inl e | Inr t2 \<Rightarrow>
     (case get_jsonform_schema rt t2 of Inl e \<Rightarrow> Inl e | Inr full \<Rightarrow>
     (case map_of full ''schema'' of None \<Rightarrow> Inl (KeyError ''schema'') | Some data \<Rightarrow>
        Inr data)))))"

text \<open>
  Lines 54--106, the body of the \<open>try\<close>. It returns the registry as far as it was updated
  and the exception, if one was raised. The schema model made by \<open>api.schema_model\<close> is
  the pair of its name (the task id) and the schema. The decorators of the resource class
  and \<open>ns.route\<close> are one step, \<open>ns_route\<close>, which may raise.
\<close>

definition try_register ::
  "'t discovery_env \<Rightarrow> task_info \<Rightarrow> string \<Rightarrow> registry \<Rightarrow> exn option \<times> registry" where
  "try_register env info task_dir reg =
     (case synthesize (runtime env) info of
        Inl e \<Rightarrow> (Some e, reg)
      | Inr data \<Rightarrow>
          let reg1 = reg\<lparr>task_models :=
                       AList.update (path info) (task_id info, data) (task_models reg)\<rparr>;
              reg2 = reg1\<lparr>logged := logged reg1 @ [Registred_model task_dir]\<rparr>;
              r = \<lparr>rule = ''/'' @ path info, endpoint = path info\<rparr>
          in (case ns_route env (routes reg2) r of
                Some e \<Rightarrow> (Some e, reg2)
              | None \<Rightarrow> (None, reg2\<lparr>routes := routes reg2 @ [r]\<rparr>)))"

text \<open>
  Lines 33--109, the body of the innermost loop for one matched file. An exception that
  leaves the body is \<open>Inl\<close>.
\<close>

definition process_tasklet ::
  "'t discovery_env \<Rightarrow> string \<Rightarrow> string \<Rightarrow> registry \<Rightarrow> exn + registry" where
  "process_tasklet env tasks_base_dir tasklet_dir reg =
     (let task_dir = dirname tasklet_dir in
      if append_flag (split (replace task_dir tasks_base_dir []) sep) then
        let dir_name = dir_name_of tasks_base_dir task_dir;
            tid = xxh64_hexdigest env task_dir
        in case get_section_from_task_doc env task_dir of
             Inl e \<Rightarrow> Inl e
           | Inr doc \<Rightarrow>
               let info = \<lparr>task_id = tid, path = dir_name, base_dir = tasks_base_dir,
                           description = or_no_description doc\<rparr>
               in if \<not> dict_mem tid (available_tasks_by_path reg) then
                    let reg1 = reg\<lparr>available_tasks_by_path :=
                          AList.update dir_name info (available_tasks_by_path reg)\<rparr>
                    in case try_register env info task_dir reg1 of
                         (None, reg2) \<Rightarrow> Inr reg2
                       | (Some e, reg2) \<Rightarrow>
                           Inr (reg2\<lparr>logged := logged reg2 @ [Unable_to_register task_dir e]\<rparr>)
                  else Inr reg
      else Inr reg)"

text \<open>The three nested loops of lines 30--32, stopping at the first escaping exception.\<close>

fun for_tasklets ::
  "'t discovery_env \<Rightarrow> string \<Rightarrow> string list \<Rightarrow> registry \<Rightarrow> exn + registry" where
  "for_tasklets env tasks_base_dir [] reg = Inr reg"
| "for_tasklets env tasks_base_dir (tasklet_dir # rest) reg =
     (case process_tasklet env tasks_base_dir tasklet_dir reg of
        Inl e \<Rightarrow> Inl e
      | Inr reg' \<Rightarrow> for_tasklets env tasks_base_dir rest reg')"

fun for_file_exts ::
  "'t discovery_env \<Rightarrow> string \<Rightarrow> string list \<Rightarrow> registry \<Rightarrow> exn + registry" where
  "for_file_exts env tasks_base_dir [] reg = Inr reg"
| "for_file_exts env tasks_base_dir (file_ext # rest) reg =
     (case for_tasklets env tasks_base_dir
             (glob env (path_join (path_join tasks_base_dir ''**'') (''*.'' @ file_ext))) reg of
        Inl e \<Rightarrow> Inl e
      | Inr reg' \<Rightarrow> for_file_exts env tasks_base_dir rest reg')"

fun for_base_dirs :: "'t discovery_env \<Rightarrow> string list \<Rightarrow> registry \<Rightarrow> exn + registry" where
  "for_base_dirs env [] reg = Inr reg"
| "for_base_dirs env (tasks_base_dir # rest) reg =
     (case for_file_exts env tasks_base_dir [''py'', ''j2''] reg of
        Inl e \<Rightarrow> Inl e
      | Inr reg' \<Rightarrow> for_base_dirs env rest reg')"

text \<open>
  \<open>discover_tasks(app)\<close>, with \<open>app.config["JINJAMATOR_TASKS_BASE_DIRECTORIES"]\<close> as the
  second argument. (The parser argument added at line 28 plays no part in the tables.)
\<close>

definition discover_tasks :: "'t discovery_env \<Rightarrow> string list \<Rightarrow> registry \<Rightarrow> exn + registry" where
  "discover_tasks env base_dirs reg = for_base_dirs env base_dirs reg"

text \<open>The module's tables at import time.\<close>

definition empty_registry :: registry where
  "empty_registry =
     \<lparr>available_tasks_by_path = [], task_models = [], routes = [], logged = []\<rparr>"

text \<open>\<open>TaskList.get\<close>: the descriptors of \<open>available_tasks_by_path\<close>, in its order.\<close>

definition TaskList_get :: "registry \<Rightarrow> task_info list" where
  "TaskList_get reg = map snd (available_tasks_by_path reg)"

subsection \<open>The resource registered for each task\<close>

text \<open>
  The arguments as \<open>task_arguments.parse_args(request)\<close> returns them: a dictionary whose
  values are strings or \<open>None\<close>.
\<close>

type_synonym args = "(string \<times> string option) list"

text \<open>\<open>if environment_site:\<close> holds for a non-empty string only.\<close>

definition truthy :: "string option \<Rightarrow> bool" where
  "truthy x = (case x of None \<Rightarrow> False | Some s \<Rightarrow> s \<noteq> [])"

text \<open>
  \<open>"{}/defaults.yaml".format(site_path_by_name.get(environment_site))\<close>; a missing site
  is formatted as \<open>None\<close>.
\<close>

definition defaults_yaml :: "(string \<times> string) list \<Rightarrow> string \<Rightarrow> string" where
  "defaults_yaml site_path_by_name environment_site =
     (case map_of site_path_by_name environment_site of
        None \<Rightarrow> ''None'' | Some p \<Rightarrow> p) @ ''/defaults.yaml''"

text \<open>
  Lines 86--97: the chain of \<open>if\<close>/\<open>elif\<close> assigns \<open>response\<close>; with no branch taken the
  name is unbound at \<open>return response\<close>. The response is the JSON document \<open>jsonify\<close> sends.
\<close>

definition select_response :: "string option \<Rightarrow> (string \<times> json) list \<Rightarrow> exn + json" where
  "select_response schema_type full_schema =
     (if schema_type \<in> set [Some [], Some ''full''] then Inr (JDict full_schema)
      else if schema_type \<in> set [Some ''schema''] then
        Inr (dict_get full_schema ''schema'' (JDict []))
      else if schema_type \<in> set [Some ''data''] then
        Inr (dict_get full_schema ''data'' (JDict []))
      else if schema_type \<in> set [Some ''options''] then
        Inr (dict_get full_schema ''options'' (JDict []))
      else if schema_type \<in> set [Some ''view''] then
        Inr (dict_get full_schema ''view'' (JDict []))
      else Inl UnboundLocalError)"

text \<open>
  Lines 75--84: a fresh task object is configured, the site's defaults are merged when a
  site was selected, the task is loaded and its schema derived anew on every request.
\<close>

definition fresh_schema ::
  "'t task_runtime \<Rightarrow> (string \<times> string) list \<Rightarrow> string option \<Rightarrow> string
   \<Rightarrow> exn + (string \<times> json) list" where
  "fresh_schema rt site_path_by_name environment_site relative_task_path =
     (case JinjamatorTask rt of Inl e \<Rightarrow> Inl e | Inr t0 \<Rightarrow>
     (case merge_dict rt t0 of Inl e \<Rightarrow> Inl e | Inr t1 \<Rightarrow>
     (case (if truthy environment_site
            then merge_yaml rt (defaults_yaml site_path_by_name (the environment_site)) t1
            else Inr t1) of Inl e \<Rightarrow> Inl e | Inr t2 \<Rightarrow>
     (case load rt relative_task_path t2 of Inl e \<Rightarrow> Inl e | Inr t3 \<Rightarrow>
        get_jsonform_schema rt t3))))"

text \<open>
  \<open>APIJinjamatorTask.get\<close>, lines 71--97, from the parsed arguments and
  \<open>request.endpoint\<close>.
\<close>

definition APIJinjamatorTask_get ::
  "'t task_runtime \<Rightarrow> (string \<times> string) list \<Rightarrow> args \<Rightarrow> string \<Rightarrow> exn + json" where
  "APIJinjamatorTask_get rt site_path_by_name args request_endpoint =
     (let schema_type = dict_get args ''schema-type'' (Some ''full'');
          environment_site = dict_get args ''preload-defaults-from-site'' None;
          relative_task_path = replace request_endpoint ''api.'' []
      in case fresh_schema rt site_path_by_name environment_site relative_task_path of
           Inl e \<Rightarrow> Inl e
         | Inr full_schema \<Rightarrow> select_response schema_type full_schema)"

text \<open>
  \<open>APIJinjamatorTask.post\<close>, lines 101--106, entered with the payload that passed the
  validation against the task's model. \<open>Logger.info\<close> has a required parameter \<open>msg\<close>, so
  the call \<open>log.info()\<close> raises \<open>TypeError\<close>; \<open>return {}\<close> is not reached.
\<close>

definition log_info :: "string option \<Rightarrow> exn + unit" where
  "log_info msg = (case msg of None \<Rightarrow> Inl TypeError | Some m \<Rightarrow> Inr ())"

definition APIJinjamatorTask_post :: "json \<Rightarrow> exn + json" where
  "APIJinjamatorTask_post payload =
     (case log_info None of Inl e \<Rightarrow> Inl e | Inr u \<Rightarrow> Inr (JDict []))"

text \<open>A response carries a job identifier when it is an object with a \<open>job_id\<close> field.\<close>

definition has_job_id :: "json \<Rightarrow> bool" where
  "has_job_id r = (case r of JDict d \<Rightarrow> dict_mem ''job_id'' d | _ \<Rightarrow> False)"


section \<open>Daemon initialisation (\<open>jinjamator/daemon/__init__.py\<close>)\<close>

text \<open>\<open>str.lower\<close> on ASCII letters.\<close>

definition lower_char :: "char \<Rightarrow> char" where
  "lower_char c =
     (case map_of (zip ''ABCDEFGHIJKLMNOPQRSTUVWXYZ'' ''abcdefghijklmnopqrstuvwxyz'') c of
        None \<Rightarrow> c | Some d \<Rightarrow> d)"

definition lower :: "string \<Rightarrow> string" where
  "lower s = map lower_char s"

text \<open>
  The collaborators of \<open>initialize\<close>: the steps of lines 160--178 (configuration, database,
  Celery, AAA and the API blueprint) with their outcome, \<open>importlib.import_module\<close>, and
  \<open>flask_app.register_blueprint(webui_blueprint.webui)\<close> for an imported module \<open>'m\<close>.
\<close>

record 'm daemon_env =
  core_setup :: "exn option"
  import_module :: "string \<Rightarrow> exn + 'm"
  register_blueprint :: "'m \<Rightarrow> exn option"

datatype daemon_log =
    Debug_webui_disabled
  | Debug_using_class string
  | Error_no_module string

record 'm daemon =
  webui :: "'m option"
  daemon_logged :: "daemon_log list"

text \<open>
  Lines 179--196. Only \<open>ModuleNotFoundError\<close> is caught; \<open>.lower()\<close> on a \<open>None\<close> setting
  raises \<open>AttributeError\<close>.
\<close>

definition init_webui :: "'m daemon_env \<Rightarrow> string option \<Rightarrow> 'm daemon \<Rightarrow> exn + 'm daemon" where
  "init_webui env web_ui_class d =
     (case web_ui_class of
        None \<Rightarrow> Inl AttributeError
      | Some classname \<Rightarrow>
          if lower classname \<in> set [''none'', ''false'', ''disable'', ''no'', ''disabled'']
          then Inr (d\<lparr>daemon_logged := daemon_logged d @ [Debug_webui_disabled]\<rparr>)
          else
            let d1 = d\<lparr>daemon_logged := daemon_logged d @ [Debug_using_class classname]\<rparr>;
                attempt =
                  (case import_module env classname of
                     Inl e \<Rightarrow> Inl e
                   | Inr webui_blueprint \<Rightarrow>
                       (case register_blueprint env webui_blueprint of
                          Some e \<Rightarrow> Inl e
                        | None \<Rightarrow> Inr (d1\<lparr>webui := Some webui_blueprint\<rparr>)))
            in (case attempt of
                  Inl (ModuleNotFoundError m) \<Rightarrow>
                    Inr (d1\<lparr>daemon_logged := daemon_logged d1 @ [Error_no_module classname]\<rparr>)
                | Inl e \<Rightarrow> Inl e
                | Inr d2 \<Rightarrow> Inr d2))"

text \<open>\<open>initialize(flask_app, cfg)\<close>, with the configured \<open>web_ui_class\<close>.\<close>

definition initialize :: "'m daemon_env \<Rightarrow> string option \<Rightarrow> exn + 'm daemon" where
  "initialize env web_ui_class =
     (case core_setup env of
        Some e \<Rightarrow> Inl e
      | None \<Rightarrow> init_webui env web_ui_class \<lparr>webui = None, daemon_logged = []\<rparr>)"


section \<open>Password redaction (\<open>jinjamator/tools/password.py\<close>)\<close>

text \<open>
  Python objects as far as \<open>redact\<close> tells them apart: strings, lists, dictionaries, and
  everything else (integers, \<open>None\<close>, and tuples, which \<open>redact\<close> does not enter).
  Dictionary keys are hashable values: strings, integers or tuples of keys.
\<close>

datatype pykey =
    KStr string
  | KInt int
  | KTuple "pykey list"

datatype pyobj =
    PStr string
  | PInt int
  | PNone
  | PTuple "pyobj list"
  | PList "pyobj list"
  | PDict "(pykey \<times> pyobj) list"

text \<open>\<open>sub in s\<close> for strings.\<close>

fun contains :: "string \<Rightarrow> string \<Rightarrow> bool" where
  "contains [] sub = (sub = [])"
| "contains (c # cs) sub = (startswith (c # cs) sub \<or> contains cs sub)"

text \<open>
  \<open>"pass" in k\<close>: a substring test on a string, a membership test on a tuple, and a
  \<open>TypeError\<close> on an integer, which is not iterable.
\<close>

definition pass_in :: "pykey \<Rightarrow> exn + bool" where
  "pass_in k =
     (case k of
        KStr s \<Rightarrow> Inr (contains s ''pass'')
      | KInt i \<Rightarrow> Inl TypeError
      | KTuple ks \<Rightarrow> Inr (KStr ''pass'' \<in> set ks))"

definition is_str :: "pyobj \<Rightarrow> bool" where
  "is_str v = (case v of PStr s \<Rightarrow> True | _ \<Rightarrow> False)"

text \<open>
  \<open>redact(obj, is_password)\<close>, with the module-level list \<open>redacted_passwords\<close> passed in
  and returned. The object is updated in place in the source; the model returns the
  updated object. \<open>redact_list\<close> and \<open>redact_items\<close> are the two \<open>for\<close> loops. Objects
  are finite trees here: a list or dictionary that is shared between two places of an
  object, or lies inside itself, is not represented.
\<close>

fun redact :: "pyobj \<Rightarrow> bool \<Rightarrow> string list \<Rightarrow> exn + (string list \<times> pyobj)"
  and redact_list :: "pyobj list \<Rightarrow> string list \<Rightarrow> exn + (string list \<times> pyobj list)"
  and redact_items ::
    "(pykey \<times> pyobj) list \<Rightarrow> string list \<Rightarrow> exn + (string list \<times> (pykey \<times> pyobj) list)"
where
  "redact (PStr s) is_password pws =
     (if is_password
      then Inr ((if s \<notin> set pws then pws @ [s] else pws), PStr ''__redacted__'')
      else Inr (pws, PStr s))"
| "redact (PList xs) is_password pws =
     (case redact_list xs pws of
        Inl e \<Rightarrow> Inl e
      | Inr (pws', xs') \<Rightarrow> Inr (pws', PList xs'))"
| "redact (PDict kvs) is_password pws =
     (case redact_items kvs pws of
        Inl e \<Rightarrow> Inl e
      | Inr (pws', kvs') \<Rightarrow> Inr (pws', PDict kvs'))"
| "redact (PInt i) is_password pws = Inr (pws, PInt i)"
| "redact PNone is_password pws = Inr (pws, PNone)"
| "redact (PTuple xs) is_password pws = Inr (pws, PTuple xs)"
| "redact_list [] pws = Inr (pws, [])"
| "redact_list (item # rest) pws =
     (case redact item False pws of
        Inl e \<Rightarrow> Inl e
      | Inr (pws', item') \<Rightarrow>
          (case redact_list rest pws' of
             Inl e \<Rightarrow> Inl e
           | Inr (pws'', rest') \<Rightarrow> Inr (pws'', item' # rest')))"
| "redact_items [] pws = Inr (pws, [])"
| "redact_items ((k, v) # rest) pws =
     (case pass_in k of
        Inl e \<Rightarrow> Inl e
      | Inr p \<Rightarrow>
          (case redact v (p \<and> is_str v) pws of
             Inl e \<Rightarrow> Inl e
           | Inr (pws', v') \<Rightarrow>
               (case redact_items rest pws' of
                  Inl e \<Rightarrow> Inl e
                | Inr (pws'', rest') \<Rightarrow> Inr (pws'', (k, v') # rest'))))"

text \<open>
  What the claim about \<open>redact\<close> says, as pure functions to compare the code with. A key
  contains \<open>pass\<close> when it is a string with that substring. \<open>redacted\<close> replaces the
  string values under such keys, through nested dictionaries and lists; \<open>passwords\<close>
  lists the replaced strings in the order of the traversal; \<open>remember\<close> appends to the
  password list each string that it does not hold yet. \<open>str_keys\<close> holds when every
  dictionary reached through lists and dictionaries has string keys only.
\<close>

fun key_has_pass :: "pykey \<Rightarrow> bool" where
  "key_has_pass (KStr s) = contains s ''pass''"
| "key_has_pass (KInt i) = False"
| "key_has_pass (KTuple ks) = False"

fun is_KStr :: "pykey \<Rightarrow> bool" where
  "is_KStr (KStr s) = True"
| "is_KStr (KInt i) = False"
| "is_KStr (KTuple ks) = False"

fun redacted :: "pyobj \<Rightarrow> pyobj" where
  "redacted (PList xs) = PList (map redacted xs)"
| "redacted (PDict kvs) =
     PDict (map (\<lambda>kv. (fst kv,
                       if key_has_pass (fst kv) \<and> is_str (snd kv) then PStr ''__redacted__''
                       else redacted (snd kv))) kvs)"
| "redacted (PStr s) = PStr s"
| "redacted (PInt i) = PInt i"
| "redacted PNone = PNone"
| "redacted (PTuple xs) = PTuple xs"

fun passwords :: "pyobj \<Rightarrow> string list" where
  "passwords (PList xs) = concat (map passwords xs)"
| "passwords (PDict kvs) =
     concat (map (\<lambda>kv. if key_has_pass (fst kv) \<and> is_str (snd kv)
                        then (case snd kv of PStr s \<Rightarrow> [s] | _ \<Rightarrow> [])
                        else passwords (snd kv)) kvs)"
| "passwords (PStr s) = []"
| "passwords (PInt i) = []"
| "passwords PNone = []"
| "passwords (PTuple xs) = []"

fun str_keys :: "pyobj \<Rightarrow> bool" where
  "str_keys (PList xs) = list_all str_keys xs"
| "str_keys (PDict kvs) = list_all (\<lambda>kv. is_KStr (fst kv) \<and> str_keys (snd kv)) kvs"
| "str_keys (PStr s) = True"
| "str_keys (PInt i) = True"
| "str_keys PNone = True"
| "str_keys (PTuple xs) = True"

fun remember :: "string list \<Rightarrow> string list \<Rightarrow> string list" where
  "remember pws [] = pws"
| "remember pws (s # ss) = remember (if s \<notin> set pws then pws @ [s] else pws) ss"

text \<open>
  The section \<open>k\<close> of a JSON response: the value under the key \<open>k\<close> of the object, and the
  empty object when there is none (the \<open>{}\<close> of \<open>full_schema.get(k, {})\<close>).
\<close>

definition section_of :: "json \<Rightarrow> string \<Rightarrow> json" where
  "section_of r k = (case r of JDict d \<Rightarrow> dict_get d k (JDict []) | _ \<Rightarrow> JDict [])"

text \<open>The parsed arguments with \<open>schema-type\<close> set to a selector.\<close>

definition with_schema_type :: "string \<Rightarrow> args \<Rightarrow> args" where
  "with_schema_type sel args = AList.update ''schema-type'' (Some sel) args"


section \<open>Example collaborators\<close>

text \<open>
  A task runtime for concrete runs: the task object is the path loaded; a path that
  contains \<open>broken\<close> fails to load; the form schema has the sections \<open>schema\<close> and \<open>data\<close> only.
\<close>

definition example_runtime :: "string task_runtime" where
  "example_runtime =
     \<lparr>JinjamatorTask = Inr [],
      merge_dict = (\<lambda>t. Inr t),
      merge_yaml = (\<lambda>y t. Inr t),
      load = (\<lambda>p t. if contains p ''broken'' then Inl (Exception ''cannot load'') else Inr p),
      get_jsonform_schema =
        (\<lambda>t. Inr [(''schema'', JDict [(''title'', JStr t)]),
                  (''data'', JDict [(''vlan_id'', JInt 1)])])\<rparr>"

text \<open>
  A discovery environment over it, from the files found per pattern, the digest and the
  documentation extractor; adding a route never raises.
\<close>

definition example_env ::
  "(string \<Rightarrow> string list) \<Rightarrow> (string \<Rightarrow> string) \<Rightarrow> (string \<Rightarrow> exn + string option)
   \<Rightarrow> string discovery_env" where
  "example_env files digest doc =
     \<lparr>runtime = example_runtime, glob = files, xxh64_hexdigest = digest,
      get_section_from_task_doc = doc, ns_route = (\<lambda>rs r. None)\<rparr>"

text \<open>
  Stand-ins for the digests of the example paths: sixteen hexadecimal digits each,
  different for different paths (the values of \<open>xxh64\<close> itself are not computed here).
\<close>

definition example_digest :: "string \<Rightarrow> string" where
  "example_digest p =
     (if p = ''/a/t'' then ''5d1c7a3be09f4426''
      else if p = ''/b/t'' then ''c03e91aa57d2880f''
      else if p = ''/tasks/broken'' then ''19f4b6de20c7a935''
      else if p = ''/tasks/ok'' then ''e8a2504c6b31d77a''
      else ''0f0e0d0c0b0a0908'')"

text \<open>What \<open>glob\<close> finds in three example trees.\<close>

definition files_two_bases :: "string \<Rightarrow> string list" where
  "files_two_bases pattern =
     (if pattern = ''/a/**/*.py'' then [''/a/t/task.py'']
      else if pattern = ''/b/**/*.py'' then [''/b/t/task.py'']
      else [])"

definition files_broken_and_ok :: "string \<Rightarrow> string list" where
  "files_broken_and_ok pattern =
     (if pattern = ''/tasks/**/*.py'' then [''/tasks/broken/task.py'', ''/tasks/ok/task.py'']
      else [])"

text \<open>A documentation extractor that raises on the first of the two directories.\<close>

definition doc_raises_on_broken :: "string \<Rightarrow> exn + string option" where
  "doc_raises_on_broken d =
     (if d = ''/tasks/broken'' then Inl (Exception ''unreadable README'') else Inr None)"

text \<open>A daemon environment whose web UI module is not installed.\<close>

definition example_daemon_env :: "unit daemon_env" where
  "example_daemon_env =
     \<lparr>core_setup = None,
      import_module = (\<lambda>name. Inl (ModuleNotFoundError name)),
      register_blueprint = (\<lambda>m. None)\<rparr>"

section \<open>Invariants and relations of the registry\<close>

text \<open>
  The by-path table is well keyed when no key occurs twice and every descriptor is stored
  under its own relative path.
\<close>

definition keyed_by_path :: "(string \<times> task_info) list \<Rightarrow> bool" where
  "keyed_by_path tbl =
     (distinct (map fst tbl) \<and> list_all (\<lambda>kv. path (snd kv) = fst kv) tbl)"

text \<open>
  Two logs that differ by one record: \<open>l1\<close> is \<open>l2\<close> with \<open>err\<close> inserted after the
  prefix \<open>pre\<close>.
\<close>

definition extra_log ::
  "log_record list \<Rightarrow> log_record \<Rightarrow> log_record list \<Rightarrow> log_record list \<Rightarrow> bool" where
  "extra_log pre err l1 l2 =
     (take (length pre) l2 = pre \<and> l1 = pre @ err # drop (length pre) l2)"

text \<open>
  Two registries agree but for a candidate that failed under the key \<open>k0\<close>: the same
  models and routes, the same descriptor under every other key, and logs that differ by
  the record of the failure.
\<close>

definition agree_but ::
  "string \<Rightarrow> log_record list \<Rightarrow> log_record \<Rightarrow> registry \<Rightarrow> registry \<Rightarrow> bool" where
  "agree_but k0 pre err r1 r2 =
     (task_models r1 = task_models r2 \<and> routes r1 = routes r2
      \<and> (\<forall>k. k \<noteq> k0 \<longrightarrow>
             map_of (available_tasks_by_path r1) k = map_of (available_tasks_by_path r2) k)
      \<and> extra_log pre err (logged r1) (logged r2))"


section \<open>Auxiliary facts\<close>

lemmas path_simps =
  dirname_def rstrip_sep_def sep_def startswith_def path_join_def dir_name_of_def

lemma dict_get_update_same: "dict_get (AList.update k v d) k dflt = v"
  by (simp add: dict_get_def AList.update_conv')

lemma dict_get_update_other:
  "k' \<noteq> k \<Longrightarrow> dict_get (AList.update k v d) k' dflt = dict_get d k' dflt"
  by (simp add: dict_get_def AList.update_conv')

lemma remember_append: "remember pws (a @ b) = remember (remember pws a) b"
  by (induction a arbitrary: pws) auto

lemma remember_distinct: "distinct pws \<Longrightarrow> distinct (remember pws ss)"
  by (induction ss arbitrary: pws) auto

lemma remember_set: "set (remember pws ss) = set pws \<union> set ss"
  by (induction ss arbitrary: pws) auto

lemma remember_known: "set ss \<subseteq> set pws \<Longrightarrow> remember pws ss = pws"
  by (induction ss arbitrary: pws) auto

lemma pass_in_KStr: "is_KStr k \<Longrightarrow> pass_in k = Inr (key_has_pass k)"
  by (cases k) (auto simp: pass_in_def)

lemma redact_password:
  "is_str v \<Longrightarrow> redact v True pws =
     Inr (remember pws (case v of PStr s \<Rightarrow> [s] | _ \<Rightarrow> []), PStr ''__redacted__'')"
  by (cases v) (auto simp: is_str_def)

text \<open>
  The three loops of \<open>redact\<close> against the pure description, by induction along the calls
  of the code.
\<close>

lemma redact_all:
  "\<not> ip \<longrightarrow> str_keys obj \<longrightarrow>
     redact obj ip pws = Inr (remember pws (passwords obj), redacted obj)"
  "list_all str_keys xs \<longrightarrow>
     redact_list xs pws1 = Inr (remember pws1 (concat (map passwords xs)), map redacted xs)"
  "list_all (\<lambda>kv. is_KStr (fst kv) \<and> str_keys (snd kv)) kvs \<longrightarrow>
     redact_items kvs pws2 =
       Inr (remember pws2
              (concat (map (\<lambda>kv. if key_has_pass (fst kv) \<and> is_str (snd kv)
                                 then (case snd kv of PStr s \<Rightarrow> [s] | _ \<Rightarrow> [])
                                 else passwords (snd kv)) kvs)),
            map (\<lambda>kv. (fst kv,
                        if key_has_pass (fst kv) \<and> is_str (snd kv) then PStr ''__redacted__''
                        else redacted (snd kv))) kvs)"
proof (induction obj ip pws and xs pws1 and kvs pws2
    rule: redact_redact_list_redact_items.induct)
  case (10 k v rest pws)
  let ?pw = "\<lambda>kv. if key_has_pass (fst kv) \<and> is_str (snd kv)
                  then (case snd kv of PStr s \<Rightarrow> [s] | _ \<Rightarrow> [])
                  else passwords (snd kv)"
  let ?rd = "\<lambda>kv. (fst kv,
                  if key_has_pass (fst kv) \<and> is_str (snd kv) then PStr ''__redacted__''
                  else redacted (snd kv))"
  show ?case
  proof (intro impI)
    assume "list_all (\<lambda>kv. is_KStr (fst kv) \<and> str_keys (snd kv)) ((k, v) # rest)"
    then have k: "pass_in k = Inr (key_has_pass k)" and sv: "str_keys v"
      and r: "list_all (\<lambda>kv. is_KStr (fst kv) \<and> str_keys (snd kv)) rest"
      by (auto simp: pass_in_KStr)
    show "redact_items ((k, v) # rest) pws =
            Inr (remember pws (concat (map ?pw ((k, v) # rest))), map ?rd ((k, v) # rest))"
    proof (cases "key_has_pass k \<and> is_str v")
      case True
      then have h: "redact v (key_has_pass k \<and> is_str v) pws =
          Inr (remember pws (case v of PStr s \<Rightarrow> [s] | _ \<Rightarrow> []), PStr ''__redacted__'')"
        using redact_password by simp
      have h': "redact v True pws =
          Inr (remember pws (case v of PStr s \<Rightarrow> [s] | _ \<Rightarrow> []), PStr ''__redacted__'')"
        using redact_password True by simp
      from 10(2)[OF k h refl] r True show ?thesis
        by (simp add: k h' remember_append)
    next
      case False
      then have h: "redact v (key_has_pass k \<and> is_str v) pws =
          Inr (remember pws (passwords v), redacted v)"
        using 10(1)[OF k] sv by simp
      from 10(2)[OF k h refl] r False show ?thesis
        by (auto simp add: k h remember_append)
    qed
  qed
qed (auto simp: remember_append split: sum.splits)


section \<open>Discovery: deduplication, failures, filtering and relative paths\<close>

text \<open>
  Claim C1. The claim: before building a descriptor, discovery checks the registry by
  relative path and skips a candidate whose relative path is already present, so that no
  relative path is ever bound to two descriptors. The code tests the task id (a digest)
  against the keys of \<open>available_tasks_by_path\<close>, which are relative paths, so the test
  does not see the entry. With two base directories \<open>/a\<close> and \<open>/b\<close> that both hold a task
  directory \<open>t\<close>, and any digest whose value for \<open>/b/t\<close> is not the string \<open>t\<close>: after the
  first base directory the key \<open>t\<close> is bound to the descriptor of \<open>/a/t\<close>; the candidate
  \<open>/b/t\<close> is not skipped, the key is bound anew to the descriptor of \<open>/b/t\<close>, the model
  is replaced and a second route with the same endpoint is added.
\<close>

theorem rediscovery_rebinds_relative_path:
  assumes "digest ''/b/t'' \<noteq> ''t''"
  shows "discover_tasks (example_env files_two_bases digest (\<lambda>d. Inr None)) [''/a'']
           empty_registry =
           Inr \<lparr>available_tasks_by_path =
                  [(''t'', \<lparr>task_id = digest ''/a/t'', path = ''t'', base_dir = ''/a'',
                            description = ''no description''\<rparr>)],
                task_models = [(''t'', digest ''/a/t'', JDict [(''title'', JStr ''/a/t'')])],
                routes = [\<lparr>rule = ''/t'', endpoint = ''t''\<rparr>],
                logged = [Registred_model ''/a/t'']\<rparr>
       \<and> discover_tasks (example_env files_two_bases digest (\<lambda>d. Inr None)) [''/a'', ''/b'']
           empty_registry =
           Inr \<lparr>available_tasks_by_path =
                  [(''t'', \<lparr>task_id = digest ''/b/t'', path = ''t'', base_dir = ''/b'',
                            description = ''no description''\<rparr>)],
                task_models = [(''t'', digest ''/b/t'', JDict [(''title'', JStr ''/b/t'')])],
                routes = [\<lparr>rule = ''/t'', endpoint = ''t''\<rparr>,
                          \<lparr>rule = ''/t'', endpoint = ''t''\<rparr>],
                logged = [Registred_model ''/a/t'', Registred_model ''/b/t'']\<rparr>"
  using assms
  by (simp add: discover_tasks_def process_tasklet_def try_register_def synthesize_def
      example_env_def example_runtime_def empty_registry_def dict_mem_def
      or_no_description_def Let_def path_simps files_two_bases_def)

text \<open>With the example digests, the task list ends with the descriptor of \<open>/b/t\<close> alone.\<close>

theorem rediscovery_rebinds_relative_path_witness:
  "example_digest ''/b/t'' \<noteq> ''t'' \<and>
   map_sum id TaskList_get
     (discover_tasks (example_env files_two_bases example_digest (\<lambda>d. Inr None))
        [''/a'', ''/b''] empty_registry) =
     Inr [\<lparr>task_id = ''c03e91aa57d2880f'', path = ''t'', base_dir = ''/b'',
           description = ''no description''\<rparr>]"
proof -
  have h: "example_digest ''/b/t'' \<noteq> ''t''"
    by (simp add: example_digest_def)
  show ?thesis
    using rediscovery_rebinds_relative_path [of example_digest] h
    by (simp add: TaskList_get_def example_digest_def)
qed

text \<open>
  Claim C2. The claim: when the schema synthesis of a candidate fails, the error is caught
  and logged, the process goes on, and the by-path table holds no entry for the
  candidate's relative path. The code stores the descriptor at line 52, before the \<open>try\<close>,
  and the handler only logs. So for every accepted candidate whose synthesis raises \<open>e\<close>:
  the step returns normally, \<open>task_models\<close> and the routes are as before, the error
  \<open>unable to register\<close> is logged, and \<open>available_tasks_by_path\<close> does hold the
  candidate's descriptor under its relative path.
\<close>

theorem failed_synthesis_stays_in_by_path_table:
  assumes "append_flag (split (replace (dirname tasklet_dir) tasks_base_dir []) sep)"
    and "get_section_from_task_doc env (dirname tasklet_dir) = Inr doc"
    and "\<not> dict_mem (xxh64_hexdigest env (dirname tasklet_dir)) (available_tasks_by_path reg)"
    and "info = \<lparr>task_id = xxh64_hexdigest env (dirname tasklet_dir),
                 path = dir_name_of tasks_base_dir (dirname tasklet_dir),
                 base_dir = tasks_base_dir, description = or_no_description doc\<rparr>"
    and "synthesize (runtime env) info = Inl e"
  shows "process_tasklet env tasks_base_dir tasklet_dir reg =
           Inr (reg\<lparr>available_tasks_by_path :=
                      AList.update (path info) info (available_tasks_by_path reg),
                    logged := logged reg @ [Unable_to_register (dirname tasklet_dir) e]\<rparr>)
       \<and> map_of (AList.update (path info) info (available_tasks_by_path reg)) (path info) =
           Some info"
  using assms
  by (simp add: process_tasklet_def try_register_def Let_def AList.update_conv')

text \<open>A task directory \<open>/tasks/broken\<close> that fails to load is listed all the same.\<close>

theorem failed_synthesis_stays_in_by_path_table_witness:
  "process_tasklet (example_env files_broken_and_ok example_digest (\<lambda>d. Inr None))
      ''/tasks'' ''/tasks/broken/task.py'' empty_registry =
   Inr \<lparr>available_tasks_by_path =
          [(''broken'', \<lparr>task_id = ''19f4b6de20c7a935'', path = ''broken'',
                          base_dir = ''/tasks'', description = ''no description''\<rparr>)],
        task_models = [], routes = [],
        logged = [Unable_to_register ''/tasks/broken'' (Exception ''cannot load'')]\<rparr>"
proof -
  let ?env = "example_env files_broken_and_ok example_digest (\<lambda>d. Inr None)"
  let ?info = "\<lparr>task_id = ''19f4b6de20c7a935'', path = ''broken'', base_dir = ''/tasks'',
                description = ''no description''\<rparr>"
  have a: "append_flag (split (replace (dirname ''/tasks/broken/task.py'') ''/tasks'' []) sep)"
    by (simp add: path_simps)
  have b: "get_section_from_task_doc ?env (dirname ''/tasks/broken/task.py'') = Inr None"
    by (simp add: example_env_def)
  have c: "\<not> dict_mem (xxh64_hexdigest ?env (dirname ''/tasks/broken/task.py''))
               (available_tasks_by_path empty_registry)"
    by (simp add: dict_mem_def empty_registry_def)
  have d: "?info = \<lparr>task_id = xxh64_hexdigest ?env (dirname ''/tasks/broken/task.py''),
                    path = dir_name_of ''/tasks'' (dirname ''/tasks/broken/task.py''),
                    base_dir = ''/tasks'', description = or_no_description None\<rparr>"
    by (simp add: path_simps example_env_def example_digest_def or_no_description_def)
  have e: "synthesize (runtime ?env) ?info = Inl (Exception ''cannot load'')"
    by (simp add: synthesize_def example_env_def example_runtime_def path_simps)
  from failed_synthesis_stays_in_by_path_table [OF a b c d e] show ?thesis
    by (simp add: empty_registry_def path_simps)
qed

text \<open>
  Claim C3. The claim: a failure while processing one candidate, the extraction of its
  description included, never aborts the pass. The call of
  \<open>get_section_from_task_doc\<close> at line 48 stands before the \<open>try\<close> of line 53. So when the
  extractor raises \<open>e\<close> for an accepted candidate, \<open>e\<close> leaves the loop, whatever
  candidates remain: they are not processed.
\<close>

theorem description_failure_aborts_pass:
  assumes "append_flag (split (replace (dirname tasklet_dir) tasks_base_dir []) sep)"
    and "get_section_from_task_doc env (dirname tasklet_dir) = Inl e"
  shows "for_tasklets env tasks_base_dir (tasklet_dir # rest) reg = Inl e"
  using assms by (simp add: process_tasklet_def Let_def)

text \<open>
  With an unreadable description in \<open>/tasks/broken\<close>, the whole of \<open>discover_tasks\<close>
  raises; the sibling \<open>/tasks/ok\<close> is never registered.
\<close>

theorem description_failure_aborts_pass_witness:
  "discover_tasks (example_env files_broken_and_ok example_digest doc_raises_on_broken)
     [''/tasks''] empty_registry = Inl (Exception ''unreadable README'')"
proof -
  let ?env = "example_env files_broken_and_ok example_digest doc_raises_on_broken"
  have a: "append_flag (split (replace (dirname ''/tasks/broken/task.py'') ''/tasks'' []) sep)"
    by (simp add: path_simps)
  have b: "get_section_from_task_doc ?env (dirname ''/tasks/broken/task.py'') =
             Inl (Exception ''unreadable README'')"
    by (simp add: path_simps example_env_def doc_raises_on_broken_def)
  show ?thesis
    using description_failure_aborts_pass [OF a b, of "[''/tasks/ok/task.py'']" empty_registry]
    by (simp add: discover_tasks_def path_simps example_env_def files_broken_and_ok_def)
qed

text \<open>
  Claim C5. The claim: a candidate is filtered out exactly when a component of its path
  below the base directory starts with \<open>.\<close> or is \<open>__pycache__\<close>. The code splits
  \<open>task_dir.replace(tasks_base_dir, '')\<close>, and \<open>replace\<close> removes every occurrence of the
  base directory's string, not only the leading one. Under the base \<open>/tasks\<close> the
  directory \<open>/tasks/__py/taskscache__\<close> has the components \<open>__py\<close> and \<open>taskscache__\<close>,
  which the loop of lines 35--38 accepts; the code sees \<open>/__pycache__\<close> and drops the
  candidate, whatever the environment and the registry. In the other direction, under a
  base \<open>cache\<close> the directory \<open>cache/__pycache__/t\<close> passes the filter of the code, though
  its component \<open>__pycache__\<close> does not pass the loop.
\<close>

theorem replace_filters_unrelated_directory:
  "process_tasklet env ''/tasks'' ''/tasks/__py/taskscache__/task.py'' reg = Inr reg
   \<and> dirname ''/tasks/__py/taskscache__/task.py'' = ''/tasks'' @ [sep] @ ''__py/taskscache__''
   \<and> append_flag (split ''__py/taskscache__'' sep)
   \<and> append_flag (split (replace ''cache/__pycache__/t'' ''cache'' []) sep)
   \<and> \<not> append_flag (split ''__pycache__/t'' sep)"
  by (simp add: process_tasklet_def path_simps)

text \<open>
  Claim C6. The claim: the relative path is the candidate's path with the base directory
  removed as a prefix and the leading separator removed, also when the base directory's
  string occurs again later in the path. Line 42 uses \<open>replace\<close>, which removes the later
  occurrence as well: for the file \<open>/tasks/a/tasks/b/task.py\<close> under \<open>/tasks\<close> the
  relative path becomes \<open>a/b\<close>, not \<open>a/tasks/b\<close>, and line 57 then loads
  \<open>/tasks/a/b\<close>, which is not the candidate's directory.
\<close>

theorem dir_name_drops_later_base_occurrence:
  "dirname ''/tasks/a/tasks/b/task.py'' = ''/tasks/a/tasks/b''
   \<and> dir_name_of ''/tasks'' (dirname ''/tasks/a/tasks/b/task.py'') = ''a/b''
   \<and> path_join ''/tasks'' (dir_name_of ''/tasks'' (dirname ''/tasks/a/tasks/b/task.py'')) =
       ''/tasks/a/b''"
  by (simp add: path_simps)


section \<open>The task resource\<close>

text \<open>
  Claim C4. The claim: a \<open>POST\<close> whose payload validates returns a response with a
  \<open>job_id\<close>. The handler calls \<open>log.info()\<close> without the message it requires, which
  raises \<open>TypeError\<close>, for every payload; and the \<open>{}\<close> of the \<open>return\<close> that follows
  has no \<open>job_id\<close> field either.
\<close>

theorem post_raises_TypeError:
  "APIJinjamatorTask_post payload = Inl TypeError \<and> \<not> has_job_id (JDict [])"
  by (simp add: APIJinjamatorTask_post_def log_info_def has_job_id_def dict_mem_def)

text \<open>
  Claim C7. For each of the selectors \<open>schema\<close>, \<open>data\<close>, \<open>options\<close> and \<open>view\<close>, the
  response of \<open>GET\<close> is the section of that name of the response to \<open>schema-type=full\<close>
  for the same task, site and task runtime (the schema is derived anew by the same
  deterministic runtime on both reads): when the full schema holds a value under the
  selector's key the response is exactly that value, when it holds none the response is the
  empty object, and when the synthesis raises both requests raise the same exception.
\<close>

theorem get_selector_is_section_of_full:
  assumes "sel \<in> set [''schema'', ''data'', ''options'', ''view'']"
  shows "APIJinjamatorTask_get rt sites (with_schema_type sel args) ep =
           (case APIJinjamatorTask_get rt sites (with_schema_type ''full'' args) ep of
              Inl e \<Rightarrow> Inl e
            | Inr full \<Rightarrow> Inr (section_of full sel))
       \<and> (\<forall>d v. APIJinjamatorTask_get rt sites (with_schema_type ''full'' args) ep =
                   Inr (JDict d) \<and> map_of d sel = Some v
              \<longrightarrow> APIJinjamatorTask_get rt sites (with_schema_type sel args) ep = Inr v)"
proof -
  let ?site = "dict_get args ''preload-defaults-from-site'' None"
  let ?fs = "fresh_schema rt sites ?site (replace ep ''api.'' [])"
  have full: "APIJinjamatorTask_get rt sites (with_schema_type ''full'' args) ep =
      (case ?fs of Inl e \<Rightarrow> Inl e | Inr fs \<Rightarrow> Inr (JDict fs))"
    by (simp add: APIJinjamatorTask_get_def with_schema_type_def dict_get_update_same
        dict_get_update_other select_response_def split: sum.splits)
  have part: "APIJinjamatorTask_get rt sites (with_schema_type sel args) ep =
      (case ?fs of Inl e \<Rightarrow> Inl e | Inr fs \<Rightarrow> Inr (dict_get fs sel (JDict [])))"
    using assms
    by (auto simp add: APIJinjamatorTask_get_def with_schema_type_def dict_get_update_same
        dict_get_update_other select_response_def split: sum.splits)
  show ?thesis
    by (auto simp add: full part section_of_def dict_get_def split: sum.splits)
qed

text \<open>The \<open>data\<close> selector on the example runtime.\<close>

theorem get_selector_is_section_of_full_witness:
  "''data'' \<in> set [''schema'', ''data'', ''options'', ''view''] \<and>
   APIJinjamatorTask_get example_runtime [] (with_schema_type ''full'' []) ''api.net/vlan'' =
     Inr (JDict [(''schema'', JDict [(''title'', JStr ''net/vlan'')]),
                 (''data'', JDict [(''vlan_id'', JInt 1)])]) \<and>
   APIJinjamatorTask_get example_runtime [] (with_schema_type ''data'' []) ''api.net/vlan'' =
     Inr (JDict [(''vlan_id'', JInt 1)])"
proof -
  have h: "''data'' \<in> set [''schema'', ''data'', ''options'', ''view'']"
    by simp
  have f: "APIJinjamatorTask_get example_runtime [] (with_schema_type ''full'' [])
             ''api.net/vlan'' =
     Inr (JDict [(''schema'', JDict [(''title'', JStr ''net/vlan'')]),
                 (''data'', JDict [(''vlan_id'', JInt 1)])])"
    by (simp add: APIJinjamatorTask_get_def with_schema_type_def dict_get_def fresh_schema_def
        example_runtime_def truthy_def select_response_def startswith_def)
  from get_selector_is_section_of_full [OF h, of example_runtime "[]" "[]" "''api.net/vlan''"]
    f h
  show ?thesis
    by (simp add: section_of_def dict_get_def)
qed

text \<open>
  Claim C8. The claim: a \<open>GET\<close> whose \<open>schema-type\<close> is none of the recognised selectors
  falls back to the full schema. The chain of lines 86--95 has no final \<open>else\<close>: with such
  a value, and a synthesis that succeeds with \<open>full_schema\<close>, no branch assigns
  \<open>response\<close> and the handler raises \<open>UnboundLocalError\<close>, where the same request with
  \<open>schema-type=full\<close> returns the full schema.
\<close>

theorem get_unknown_selector_unbound:
  assumes "dict_get args ''schema-type'' (Some ''full'') \<notin>
             set [Some [], Some ''full'', Some ''schema'', Some ''data'', Some ''options'',
                  Some ''view'']"
    and "fresh_schema rt sites (dict_get args ''preload-defaults-from-site'' None)
           (replace ep ''api.'' []) = Inr full_schema"
  shows "APIJinjamatorTask_get rt sites args ep = Inl UnboundLocalError
       \<and> APIJinjamatorTask_get rt sites (with_schema_type ''full'' args) ep =
           Inr (JDict full_schema)"
  using assms
  by (simp add: APIJinjamatorTask_get_def with_schema_type_def dict_get_update_same
      dict_get_update_other select_response_def)

text \<open>The request \<open>schema-type=bogus\<close> on the example runtime.\<close>

theorem get_unknown_selector_unbound_witness:
  "APIJinjamatorTask_get example_runtime [] [(''schema-type'', Some ''bogus'')] ''api.net/vlan'' =
     Inl UnboundLocalError
   \<and> APIJinjamatorTask_get example_runtime []
       (with_schema_type ''full'' [(''schema-type'', Some ''bogus'')]) ''api.net/vlan'' =
     Inr (JDict [(''schema'', JDict [(''title'', JStr ''net/vlan'')]),
                 (''data'', JDict [(''vlan_id'', JInt 1)])])"
proof -
  have a: "dict_get [(''schema-type'', Some ''bogus'')] ''schema-type'' (Some ''full'') \<notin>
             set [Some [], Some ''full'', Some ''schema'', Some ''data'', Some ''options'',
                  Some ''view'']"
    by (simp add: dict_get_def)
  have b: "fresh_schema example_runtime []
             (dict_get [(''schema-type'', Some ''bogus'')] ''preload-defaults-from-site'' None)
             (replace ''api.net/vlan'' ''api.'' []) =
           Inr [(''schema'', JDict [(''title'', JStr ''net/vlan'')]),
                (''data'', JDict [(''vlan_id'', JInt 1)])]"
    by (simp add: dict_get_def fresh_schema_def example_runtime_def truthy_def startswith_def)
  from get_unknown_selector_unbound [OF a b] show ?thesis .
qed


section \<open>Initialisation with a missing web UI module\<close>

text \<open>
  Claim C9. When the steps before the web UI part complete, the configured class name is
  not one of the names that disable the UI, and importing it raises
  \<open>ModuleNotFoundError\<close>, then \<open>initialize\<close> returns normally: the error is logged and
  no web UI blueprint is registered.
\<close>

theorem initialize_survives_missing_webui:
  assumes "core_setup env = None"
    and "lower classname \<notin> set [''none'', ''false'', ''disable'', ''no'', ''disabled'']"
    and "import_module env classname = Inl (ModuleNotFoundError m)"
  shows "initialize env (Some classname) =
           Inr \<lparr>webui = None,
                daemon_logged = [Debug_using_class classname, Error_no_module classname]\<rparr>"
  using assms by (simp add: initialize_def init_webui_def)

text \<open>The class \<open>jinjamator_webui\<close> with no such module installed.\<close>

theorem initialize_survives_missing_webui_witness:
  "initialize example_daemon_env (Some ''jinjamator_webui'') =
     Inr \<lparr>webui = None,
          daemon_logged = [Debug_using_class ''jinjamator_webui'',
                           Error_no_module ''jinjamator_webui'']\<rparr>"
proof -
  have a: "core_setup example_daemon_env = None"
    by (simp add: example_daemon_env_def)
  have b: "lower ''jinjamator_webui'' \<notin>
             set [''none'', ''false'', ''disable'', ''no'', ''disabled'']"
    by (simp add: lower_def lower_char_def)
  have c: "import_module example_daemon_env ''jinjamator_webui'' =
             Inl (ModuleNotFoundError ''jinjamator_webui'')"
    by (simp add: example_daemon_env_def)
  from initialize_survives_missing_webui [OF a b c] show ?thesis .
qed


section \<open>Redaction\<close>

text \<open>
  Claim C10, as stated, fails on a dictionary with a key that is not a string: \<open>"pass" in k\<close>
  raises \<open>TypeError\<close> for an integer key, and \<open>redact\<close> returns nothing.
\<close>

theorem redact_int_key_counterexample:
  "redact (PDict [(KInt 10, PStr ''secret'')]) False [] = Inl TypeError"
  by (simp add: pass_in_def)

text \<open>
  Claim C10, amended. For every object (a finite nesting of values, lists and
  dictionaries) whose dictionaries, as far as lists and dictionaries lead to them, have
  string keys only, and every state \<open>pws\<close> of the
  module-level password list: \<open>redact\<close> returns the pair of the password list and the
  object, in which every string value stored under a key containing \<open>pass\<close> is replaced by
  \<open>__redacted__\<close>, through nested dictionaries and lists, and everything else is
  unchanged. The returned list holds the strings it held before and the replaced ones; it
  has no duplicates if it had none before; and a further call on an equal object returns
  the same list again.
\<close>

theorem redact_str_keys:
  assumes "str_keys obj"
  shows "redact obj False pws = Inr (remember pws (passwords obj), redacted obj)
       \<and> set (remember pws (passwords obj)) = set pws \<union> set (passwords obj)
       \<and> (distinct pws \<longrightarrow> distinct (remember pws (passwords obj)))
       \<and> redact obj False (remember pws (passwords obj)) =
           Inr (remember pws (passwords obj), redacted obj)"
proof -
  have one: "\<And>p. redact obj False p = Inr (remember p (passwords obj), redacted obj)"
    using redact_all(1) [of False obj] assms by simp
  have again: "remember (remember pws (passwords obj)) (passwords obj) =
      remember pws (passwords obj)"
    by (rule remember_known) (simp add: remember_set)
  show ?thesis
    by (simp add: one again remember_set remember_distinct)
qed

text \<open>A configuration with the same password under two keys: it is listed once.\<close>

theorem redact_str_keys_witness:
  "str_keys (PDict [(KStr ''password'', PStr ''s3cret''),
                    (KStr ''hosts'',
                     PList [PStr ''sw1'', PDict [(KStr ''enable_pass'', PStr ''s3cret'')]])])
   \<and> redact (PDict [(KStr ''password'', PStr ''s3cret''),
                    (KStr ''hosts'',
                     PList [PStr ''sw1'', PDict [(KStr ''enable_pass'', PStr ''s3cret'')]])])
        False [] =
      Inr ([''s3cret''],
           PDict [(KStr ''password'', PStr ''__redacted__''),
                  (KStr ''hosts'',
                   PList [PStr ''sw1'',
                          PDict [(KStr ''enable_pass'', PStr ''__redacted__'')]])])"
proof -
  let ?obj = "PDict [(KStr ''password'', PStr ''s3cret''),
                     (KStr ''hosts'',
                      PList [PStr ''sw1'', PDict [(KStr ''enable_pass'', PStr ''s3cret'')]])]"
  have h: "str_keys ?obj"
    by simp
  show ?thesis
    using redact_str_keys [OF h, of "[]"] h
    by (simp add: is_str_def startswith_def)
qed

section \<open>Further properties of discovery\<close>

subsection \<open>Each relative path is listed once\<close>

lemma try_register_by_path:
  "try_register env info td reg = (x, reg') \<Longrightarrow>
     available_tasks_by_path reg' = available_tasks_by_path reg"
  by (auto simp add: try_register_def Let_def split: sum.splits option.splits)

lemma process_tasklet_by_path:
  assumes "process_tasklet env b f reg = Inr reg'"
  shows "available_tasks_by_path reg' = available_tasks_by_path reg
       \<or> (\<exists>doc. available_tasks_by_path reg' =
             AList.update (dir_name_of b (dirname f))
               \<lparr>task_id = xxh64_hexdigest env (dirname f), path = dir_name_of b (dirname f),
                base_dir = b, description = or_no_description doc\<rparr>
               (available_tasks_by_path reg))"
  using assms
  by (auto simp add: process_tasklet_def Let_def
      split: if_splits sum.splits prod.splits option.splits dest!: try_register_by_path)

lemma update_keyed:
  "list_all (\<lambda>kv. path (snd kv) = fst kv) tbl \<Longrightarrow> path info = k \<Longrightarrow>
     list_all (\<lambda>kv. path (snd kv) = fst kv) (AList.update k info tbl)"
  by (induction tbl) auto

lemma process_tasklet_keyed:
  assumes "keyed_by_path (available_tasks_by_path reg)"
    and "process_tasklet env b f reg = Inr reg'"
  shows "keyed_by_path (available_tasks_by_path reg')"
  using process_tasklet_by_path [OF assms(2)] assms(1)
  by (auto simp: keyed_by_path_def distinct_update update_keyed)

lemma for_tasklets_keyed:
  "keyed_by_path (available_tasks_by_path reg) \<Longrightarrow> for_tasklets env b fs reg = Inr reg' \<Longrightarrow>
     keyed_by_path (available_tasks_by_path reg')"
proof (induction fs arbitrary: reg)
  case Nil
  then show ?case by simp
next
  case (Cons f fs)
  then show ?case
    by (auto split: sum.splits dest: process_tasklet_keyed)
qed

lemma for_file_exts_keyed:
  "keyed_by_path (available_tasks_by_path reg) \<Longrightarrow> for_file_exts env b es reg = Inr reg' \<Longrightarrow>
     keyed_by_path (available_tasks_by_path reg')"
proof (induction es arbitrary: reg)
  case Nil
  then show ?case by simp
next
  case (Cons x es)
  then show ?case
    by (auto split: sum.splits dest: for_tasklets_keyed)
qed

lemma for_base_dirs_keyed:
  "keyed_by_path (available_tasks_by_path reg) \<Longrightarrow> for_base_dirs env bs reg = Inr reg' \<Longrightarrow>
     keyed_by_path (available_tasks_by_path reg')"
proof (induction bs arbitrary: reg)
  case Nil
  then show ?case by simp
next
  case (Cons b bs)
  from Cons.prems(2) obtain r where
    r: "for_file_exts env b [''py'', ''j2''] reg = Inr r"
    and rest: "for_base_dirs env bs r = Inr reg'"
    by (simp only: for_base_dirs.simps split: sum.splits) auto
  from for_file_exts_keyed [OF Cons.prems(1) r] Cons.IH rest show ?case
    by blast
qed

text \<open>
  The part of the first claim that the dictionary gives: from a well-keyed table, a pass
  that returns leaves a well-keyed table, so \<open>TaskList.get\<close> lists every relative path
  once, however often a directory was traversed.
\<close>

theorem discovery_lists_each_path_once:
  assumes "keyed_by_path (available_tasks_by_path reg)"
    and "discover_tasks env base_dirs reg = Inr reg'"
  shows "distinct (map path (TaskList_get reg'))
       \<and> map path (TaskList_get reg') = map fst (available_tasks_by_path reg')"
proof -
  have k: "keyed_by_path (available_tasks_by_path reg')"
    using assms for_base_dirs_keyed by (simp add: discover_tasks_def) blast
  have "map path (TaskList_get reg') = map fst (available_tasks_by_path reg')"
    using k by (simp add: TaskList_get_def keyed_by_path_def list_all_iff)
  then show ?thesis
    using k by (simp add: keyed_by_path_def)
qed

theorem discovery_lists_each_path_once_witness:
  "distinct (map path (TaskList_get
      \<lparr>available_tasks_by_path =
          [(''broken'', \<lparr>task_id = ''19f4b6de20c7a935'', path = ''broken'',
                          base_dir = ''/tasks'', description = ''no description''\<rparr>),
           (''ok'', \<lparr>task_id = ''e8a2504c6b31d77a'', path = ''ok'',
                      base_dir = ''/tasks'', description = ''no description''\<rparr>)],
        task_models = [(''ok'', ''e8a2504c6b31d77a'', JDict [(''title'', JStr ''/tasks/ok'')])],
        routes = [\<lparr>rule = ''/ok'', endpoint = ''ok''\<rparr>],
        logged = [Unable_to_register ''/tasks/broken'' (Exception ''cannot load''),
                  Registred_model ''/tasks/ok'']\<rparr>))"
proof -
  let ?env = "example_env files_broken_and_ok example_digest (\<lambda>d. Inr None)"
  let ?R = "\<lparr>available_tasks_by_path =
          [(''broken'', \<lparr>task_id = ''19f4b6de20c7a935'', path = ''broken'',
                          base_dir = ''/tasks'', description = ''no description''\<rparr>),
           (''ok'', \<lparr>task_id = ''e8a2504c6b31d77a'', path = ''ok'',
                      base_dir = ''/tasks'', description = ''no description''\<rparr>)],
        task_models = [(''ok'', ''e8a2504c6b31d77a'', JDict [(''title'', JStr ''/tasks/ok'')])],
        routes = [\<lparr>rule = ''/ok'', endpoint = ''ok''\<rparr>],
        logged = [Unable_to_register ''/tasks/broken'' (Exception ''cannot load''),
                  Registred_model ''/tasks/ok'']\<rparr>"
  have a: "keyed_by_path (available_tasks_by_path empty_registry)"
    by (simp add: keyed_by_path_def empty_registry_def)
  have b: "discover_tasks ?env [''/tasks''] empty_registry = Inr ?R"
    by (simp add: discover_tasks_def process_tasklet_def try_register_def synthesize_def
        example_env_def example_runtime_def empty_registry_def dict_mem_def
        or_no_description_def Let_def path_simps files_broken_and_ok_def example_digest_def)
  from discovery_lists_each_path_once [OF a b] show ?thesis
    by blast
qed

subsection \<open>Only the description can abort the pass\<close>

lemma process_tasklet_raises:
  assumes "process_tasklet env b f reg = Inl e"
  shows "get_section_from_task_doc env (dirname f) = Inl e"
  using assms
  by (auto simp add: process_tasklet_def Let_def
      split: if_splits sum.splits prod.splits option.splits)

lemma for_tasklets_raises:
  "for_tasklets env b fs reg = Inl e \<Longrightarrow> \<exists>d. get_section_from_task_doc env d = Inl e"
  by (induction fs arbitrary: reg) (auto split: sum.splits dest: process_tasklet_raises)

lemma for_file_exts_raises:
  "for_file_exts env b es reg = Inl e \<Longrightarrow> \<exists>d. get_section_from_task_doc env d = Inl e"
  by (induction es arbitrary: reg) (auto split: sum.splits dest!: for_tasklets_raises)

lemma for_base_dirs_raises:
  "for_base_dirs env bs reg = Inl e \<Longrightarrow> \<exists>d. get_section_from_task_doc env d = Inl e"
proof (induction bs arbitrary: reg)
  case Nil
  then show ?case by simp
next
  case (Cons b bs)
  show ?case
  proof (cases "for_file_exts env b [''py'', ''j2''] reg")
    case (Inl e')
    with Cons.prems have "e' = e"
      by (simp only: for_base_dirs.simps sum.case) simp
    with Inl for_file_exts_raises show ?thesis
      by blast
  next
    case (Inr r)
    with Cons.prems have "for_base_dirs env bs r = Inl e"
      by (simp only: for_base_dirs.simps sum.case)
    with Cons.IH show ?thesis
      by blast
  qed
qed

text \<open>
  Every exception of the task runtime, of the schema and of the route registration is
  caught by the \<open>try\<close>: when the documentation extractor raises for no directory,
  \<open>discover_tasks\<close> returns, for every list of base directories and every starting
  registry.
\<close>

theorem discovery_raises_only_from_description:
  assumes "\<forall>d. \<exists>doc. get_section_from_task_doc env d = Inr doc"
  shows "\<exists>reg'. discover_tasks env base_dirs reg = Inr reg'"
proof (cases "discover_tasks env base_dirs reg")
  case (Inl e)
  then have "for_base_dirs env base_dirs reg = Inl e"
    by (simp add: discover_tasks_def)
  from for_base_dirs_raises [OF this]
  obtain d where "get_section_from_task_doc env d = Inl e"
    by blast
  with assms show ?thesis
    by (metis sum.distinct(1))
next
  case (Inr r)
  then show ?thesis by blast
qed

theorem discovery_raises_only_from_description_witness:
  "\<exists>reg'. discover_tasks (example_env files_broken_and_ok example_digest (\<lambda>d. Inr None))
      [''/tasks''] empty_registry = Inr reg'"
proof -
  have "\<forall>d. \<exists>doc. get_section_from_task_doc
     (example_env files_broken_and_ok example_digest (\<lambda>d. Inr None)) d = Inr doc"
    by (simp add: example_env_def)
  from discovery_raises_only_from_description [OF this] show ?thesis .
qed

subsection \<open>The relative path when the base directory's string occurs once\<close>

lemma replace_absent: "old \<noteq> [] \<Longrightarrow> \<not> contains s old \<Longrightarrow> replace s old new = s"
  by (induction s old new rule: replace.induct) auto

lemma replace_prefix:
  assumes "old \<noteq> []"
  shows "replace (old @ r) old new = new @ replace r old new"
proof -
  from assms obtain c cs where o: "old = c # cs"
    by (cases old) auto
  have "replace ((c # cs) @ r) (c # cs) new = new @ replace r (c # cs) new"
    by (simp add: startswith_def)
  then show ?thesis
    by (simp add: o)
qed

lemma append_flag_iff:
  "append_flag cs = list_all (\<lambda>c. \<not> startswith c ''.'' \<and> c \<noteq> ''__pycache__'') cs"
  by (induction cs) auto

text \<open>
  For a task directory \<open>tasks_base_dir/rel\<close> in which the non-empty string of the base
  directory does not occur again after the prefix, line 42 yields \<open>rel\<close>, and the filter
  of lines 34--38 accepts the candidate exactly when no component of \<open>rel\<close> starts with
  \<open>.\<close> or is \<open>__pycache__\<close>.
\<close>

theorem dir_name_is_relative_path_when_base_occurs_once:
  assumes "tasks_base_dir \<noteq> []" and "\<not> contains (sep # rel) tasks_base_dir"
  shows "dir_name_of tasks_base_dir (tasks_base_dir @ sep # rel) = rel
       \<and> append_flag (split (replace (tasks_base_dir @ sep # rel) tasks_base_dir []) sep) =
           list_all (\<lambda>c. \<not> startswith c ''.'' \<and> c \<noteq> ''__pycache__'') (split rel sep)"
  using assms
  by (simp add: dir_name_of_def replace_prefix replace_absent append_flag_iff startswith_def)

theorem dir_name_is_relative_path_when_base_occurs_once_witness:
  "dir_name_of ''/tasks'' (''/tasks'' @ sep # ''net/vlan'') = ''net/vlan''
   \<and> append_flag (split (replace (''/tasks'' @ sep # ''net/vlan'') ''/tasks'' []) sep)"
proof -
  have a: "''/tasks'' \<noteq> []"
    by simp
  have b: "\<not> contains (sep # ''net/vlan'') ''/tasks''"
    by (simp add: sep_def startswith_def)
  from dir_name_is_relative_path_when_base_occurs_once [OF a b] show ?thesis
    by (simp add: sep_def startswith_def)
qed

subsection \<open>A candidate that fails inside the \<open>try\<close> does not disturb the others\<close>

lemma extra_log_append:
  assumes "extra_log pre err l1 l2"
  shows "extra_log pre err (l1 @ xs) (l2 @ xs)"
proof -
  from assms have t: "take (length pre) l2 = pre"
    and l: "l1 = pre @ err # drop (length pre) l2"
    by (auto simp: extra_log_def)
  from t have "length pre \<le> length l2"
    by (metis length_take min.cobounded1)
  then show ?thesis
    using t l by (simp add: extra_log_def)
qed

lemma agree_but_logged:
  "agree_but k0 pre err r1 r2 \<Longrightarrow>
     agree_but k0 pre err (r1\<lparr>logged := logged r1 @ xs\<rparr>) (r2\<lparr>logged := logged r2 @ xs\<rparr>)"
  by (simp add: agree_but_def extra_log_append)

lemma agree_but_by_path:
  "agree_but k0 pre err r1 r2 \<Longrightarrow>
     agree_but k0 pre err
       (r1\<lparr>available_tasks_by_path := AList.update k v (available_tasks_by_path r1)\<rparr>)
       (r2\<lparr>available_tasks_by_path := AList.update k v (available_tasks_by_path r2)\<rparr>)"
  by (simp add: agree_but_def AList.update_conv')

lemma try_register_agree:
  assumes a: "agree_but k0 pre err r1 r2"
  shows "fst (try_register env info td r1) = fst (try_register env info td r2)
       \<and> agree_but k0 pre err (snd (try_register env info td r1))
            (snd (try_register env info td r2))"
proof (cases "synthesize (runtime env) info")
  case (Inl e)
  then show ?thesis
    using a by (simp add: try_register_def)
next
  case (Inr data)
  from a have rt: "routes r1 = routes r2" and tm: "task_models r1 = task_models r2"
    by (auto simp: agree_but_def)
  from a have l: "extra_log pre err (logged r1 @ [Registred_model td])
      (logged r2 @ [Registred_model td])"
    by (simp add: agree_but_def extra_log_append)
  show ?thesis
    using a Inr rt tm l
    by (cases "ns_route env (routes r2) \<lparr>rule = ''/'' @ path info, endpoint = path info\<rparr>")
      (simp_all add: try_register_def Let_def agree_but_def)
qed

lemma process_tasklet_agree:
  assumes a: "agree_but k0 pre err r1 r2"
    and d: "xxh64_hexdigest env (dirname f) \<noteq> k0"
  shows "case process_tasklet env b f r1 of
           Inl e \<Rightarrow> process_tasklet env b f r2 = Inl e
         | Inr r1' \<Rightarrow>
             (\<exists>r2'. process_tasklet env b f r2 = Inr r2' \<and> agree_but k0 pre err r1' r2')"
proof -
  let ?tid = "xxh64_hexdigest env (dirname f)"
  let ?dn = "dir_name_of b (dirname f)"
  from a d have m: "dict_mem ?tid (available_tasks_by_path r1) =
      dict_mem ?tid (available_tasks_by_path r2)"
    by (simp add: agree_but_def dict_mem_def)
  show ?thesis
  proof (cases "append_flag (split (replace (dirname f) b []) sep)")
    case False
    then show ?thesis
      using a by (simp add: process_tasklet_def)
  next
    case accepted: True
    show ?thesis
    proof (cases "get_section_from_task_doc env (dirname f)")
      case (Inl e)
      then show ?thesis
        using accepted by (simp add: process_tasklet_def Let_def)
    next
      case (Inr doc)
      show ?thesis
      proof (cases "dict_mem ?tid (available_tasks_by_path r2)")
        case True
        then show ?thesis
          using a m Inr accepted by (simp add: process_tasklet_def Let_def)
      next
        case False
        let ?info = "\<lparr>task_id = ?tid, path = ?dn, base_dir = b,
                       description = or_no_description doc\<rparr>"
        let ?u1 = "r1\<lparr>available_tasks_by_path :=
                       AList.update ?dn ?info (available_tasks_by_path r1)\<rparr>"
        let ?u2 = "r2\<lparr>available_tasks_by_path :=
                       AList.update ?dn ?info (available_tasks_by_path r2)\<rparr>"
        have u: "agree_but k0 pre err ?u1 ?u2"
          using a by (rule agree_but_by_path)
        obtain x1 s1 where t1: "try_register env ?info (dirname f) ?u1 = (x1, s1)"
          by fastforce
        obtain x2 s2 where t2: "try_register env ?info (dirname f) ?u2 = (x2, s2)"
          by fastforce
        from try_register_agree [OF u, of env ?info "dirname f"] t1 t2
        have x: "x1 = x2" and s: "agree_but k0 pre err s1 s2"
          by simp_all
        show ?thesis
          using False m Inr accepted t1 t2 x s
          by (cases x2) (simp_all add: process_tasklet_def Let_def agree_but_logged)
      qed
    qed
  qed
qed

lemma for_tasklets_agree:
  assumes "agree_but k0 pre err r1 r2" and "\<forall>p. xxh64_hexdigest env p \<noteq> k0"
  shows "case for_tasklets env b fs r1 of
           Inl e \<Rightarrow> for_tasklets env b fs r2 = Inl e
         | Inr r1' \<Rightarrow>
             (\<exists>r2'. for_tasklets env b fs r2 = Inr r2' \<and> agree_but k0 pre err r1' r2')"
  using assms
proof (induction fs arbitrary: r1 r2)
  case Nil
  then show ?case by simp
next
  case (Cons f fs)
  from Cons.prems have d: "xxh64_hexdigest env (dirname f) \<noteq> k0"
    by simp
  show ?case
  proof (cases "process_tasklet env b f r1")
    case (Inl e)
    with process_tasklet_agree [OF Cons.prems(1) d, of b] show ?thesis
      by simp
  next
    case (Inr r1')
    with process_tasklet_agree [OF Cons.prems(1) d, of b] obtain r2' where
      p2: "process_tasklet env b f r2 = Inr r2'" and ag: "agree_but k0 pre err r1' r2'"
      by auto
    from Cons.IH [OF ag Cons.prems(2)] Inr p2 show ?thesis
      by (simp split: sum.splits)
  qed
qed

lemma for_file_exts_agree:
  assumes "agree_but k0 pre err r1 r2" and "\<forall>p. xxh64_hexdigest env p \<noteq> k0"
  shows "case for_file_exts env b es r1 of
           Inl e \<Rightarrow> for_file_exts env b es r2 = Inl e
         | Inr r1' \<Rightarrow>
             (\<exists>r2'. for_file_exts env b es r2 = Inr r2' \<and> agree_but k0 pre err r1' r2')"
  using assms
proof (induction es arbitrary: r1 r2)
  case Nil
  then show ?case by simp
next
  case (Cons x es)
  let ?fs = "glob env (path_join (path_join b ''**'') (''*.'' @ x))"
  show ?case
  proof (cases "for_tasklets env b ?fs r1")
    case (Inl e)
    with for_tasklets_agree [OF Cons.prems, of b ?fs] show ?thesis
      by simp
  next
    case (Inr r1')
    with for_tasklets_agree [OF Cons.prems, of b ?fs] obtain r2' where
      p2: "for_tasklets env b ?fs r2 = Inr r2'" and ag: "agree_but k0 pre err r1' r2'"
      by auto
    from Cons.IH [OF ag Cons.prems(2)] Inr p2 show ?thesis
      by (simp split: sum.splits)
  qed
qed

lemma for_base_dirs_agree:
  assumes "agree_but k0 pre err r1 r2" and "\<forall>p. xxh64_hexdigest env p \<noteq> k0"
  shows "case for_base_dirs env bs r1 of
           Inl e \<Rightarrow> for_base_dirs env bs r2 = Inl e
         | Inr r1' \<Rightarrow>
             (\<exists>r2'. for_base_dirs env bs r2 = Inr r2' \<and> agree_but k0 pre err r1' r2')"
  using assms
proof (induction bs arbitrary: r1 r2)
  case Nil
  then show ?case by simp
next
  case (Cons b bs)
  show ?case
  proof (cases "for_file_exts env b [''py'', ''j2''] r1")
    case (Inl e)
    with for_file_exts_agree [OF Cons.prems, of b "[''py'', ''j2'']"] show ?thesis
      by (simp only: for_base_dirs.simps sum.case)
  next
    case (Inr r1')
    with for_file_exts_agree [OF Cons.prems, of b "[''py'', ''j2'']"] obtain r2' where
      p2: "for_file_exts env b [''py'', ''j2''] r2 = Inr r2'"
      and ag: "agree_but k0 pre err r1' r2'"
      by (auto simp only: sum.case)
    from Cons.IH [OF ag Cons.prems(2)] Inr p2 show ?thesis
      by (simp only: for_base_dirs.simps sum.case)
  qed
qed

lemma process_tasklet_failed:
  assumes "append_flag (split (replace (dirname tasklet_dir) tasks_base_dir []) sep)"
    and "get_section_from_task_doc env (dirname tasklet_dir) = Inr doc"
    and "\<not> dict_mem (xxh64_hexdigest env (dirname tasklet_dir)) (available_tasks_by_path reg)"
    and "info = \<lparr>task_id = xxh64_hexdigest env (dirname tasklet_dir),
                 path = dir_name_of tasks_base_dir (dirname tasklet_dir),
                 base_dir = tasks_base_dir, description = or_no_description doc\<rparr>"
    and "synthesize (runtime env) info = Inl e"
  shows "process_tasklet env tasks_base_dir tasklet_dir reg =
           Inr (reg\<lparr>available_tasks_by_path :=
                      AList.update (path info) info (available_tasks_by_path reg),
                    logged := logged reg @ [Unable_to_register (dirname tasklet_dir) e]\<rparr>)"
  using assms
  by (simp add: process_tasklet_def try_register_def Let_def)

text \<open>
  The part of the third claim that the \<open>try\<close> gives. Let an accepted candidate fail in
  the synthesis of its schema, and let no digest be equal to its relative path (a digest
  is sixteen hexadecimal digits). Then the files matched after it are processed as if the
  candidate were absent: the loop over them raises the same exception or ends with the
  same models, the same routes and the same descriptor under every other relative path,
  the log differing by the record of the failure.
\<close>

theorem failed_candidate_as_if_absent:
  assumes "append_flag (split (replace (dirname tasklet_dir) tasks_base_dir []) sep)"
    and "get_section_from_task_doc env (dirname tasklet_dir) = Inr doc"
    and "\<not> dict_mem (xxh64_hexdigest env (dirname tasklet_dir)) (available_tasks_by_path reg)"
    and "info = \<lparr>task_id = xxh64_hexdigest env (dirname tasklet_dir),
                 path = dir_name_of tasks_base_dir (dirname tasklet_dir),
                 base_dir = tasks_base_dir, description = or_no_description doc\<rparr>"
    and "synthesize (runtime env) info = Inl e"
    and "\<forall>p. xxh64_hexdigest env p \<noteq> path info"
  shows "case for_tasklets env tasks_base_dir (tasklet_dir # rest) reg of
           Inl e' \<Rightarrow> for_tasklets env tasks_base_dir rest reg = Inl e'
         | Inr r1 \<Rightarrow>
             (\<exists>r2. for_tasklets env tasks_base_dir rest reg = Inr r2
                 \<and> agree_but (path info) (logged reg)
                      (Unable_to_register (dirname tasklet_dir) e) r1 r2)"
proof -
  let ?err = "Unable_to_register (dirname tasklet_dir) e"
  let ?r1 = "reg\<lparr>available_tasks_by_path :=
                   AList.update (path info) info (available_tasks_by_path reg),
                 logged := logged reg @ [?err]\<rparr>"
  have step: "process_tasklet env tasks_base_dir tasklet_dir reg = Inr ?r1"
    using assms(1-5) by (rule process_tasklet_failed)
  have ag: "agree_but (path info) (logged reg) ?err ?r1 reg"
    by (simp add: agree_but_def extra_log_def AList.update_conv')
  from for_tasklets_agree [OF ag assms(6), of tasks_base_dir rest] step
  show ?thesis
    by simp
qed

theorem failed_candidate_as_if_absent_witness:
  "for_tasklets (example_env files_broken_and_ok example_digest (\<lambda>d. Inr None)) ''/tasks''
     [''/tasks/broken/task.py'', ''/tasks/ok/task.py''] empty_registry =
   Inr \<lparr>available_tasks_by_path =
          [(''broken'', \<lparr>task_id = ''19f4b6de20c7a935'', path = ''broken'',
                          base_dir = ''/tasks'', description = ''no description''\<rparr>),
           (''ok'', \<lparr>task_id = ''e8a2504c6b31d77a'', path = ''ok'',
                      base_dir = ''/tasks'', description = ''no description''\<rparr>)],
        task_models = [(''ok'', ''e8a2504c6b31d77a'', JDict [(''title'', JStr ''/tasks/ok'')])],
        routes = [\<lparr>rule = ''/ok'', endpoint = ''ok''\<rparr>],
        logged = [Unable_to_register ''/tasks/broken'' (Exception ''cannot load''),
                  Registred_model ''/tasks/ok'']\<rparr>
   \<and> (\<exists>r2. for_tasklets (example_env files_broken_and_ok example_digest (\<lambda>d. Inr None))
              ''/tasks'' [''/tasks/ok/task.py''] empty_registry = Inr r2
          \<and> task_models r2 =
              [(''ok'', ''e8a2504c6b31d77a'', JDict [(''title'', JStr ''/tasks/ok'')])]
          \<and> routes r2 = [\<lparr>rule = ''/ok'', endpoint = ''ok''\<rparr>])"
proof -
  let ?env = "example_env files_broken_and_ok example_digest (\<lambda>d. Inr None)"
  let ?info = "\<lparr>task_id = ''19f4b6de20c7a935'', path = ''broken'', base_dir = ''/tasks'',
                description = ''no description''\<rparr>"
  have a: "append_flag (split (replace (dirname ''/tasks/broken/task.py'') ''/tasks'' []) sep)"
    by (simp add: path_simps)
  have b: "get_section_from_task_doc ?env (dirname ''/tasks/broken/task.py'') = Inr None"
    by (simp add: example_env_def)
  have c: "\<not> dict_mem (xxh64_hexdigest ?env (dirname ''/tasks/broken/task.py''))
               (available_tasks_by_path empty_registry)"
    by (simp add: dict_mem_def empty_registry_def)
  have d: "?info = \<lparr>task_id = xxh64_hexdigest ?env (dirname ''/tasks/broken/task.py''),
                    path = dir_name_of ''/tasks'' (dirname ''/tasks/broken/task.py''),
                    base_dir = ''/tasks'', description = or_no_description None\<rparr>"
    by (simp add: path_simps example_env_def example_digest_def or_no_description_def)
  have e: "synthesize (runtime ?env) ?info = Inl (Exception ''cannot load'')"
    by (simp add: synthesize_def example_env_def example_runtime_def path_simps)
  have f: "\<forall>p. xxh64_hexdigest ?env p \<noteq> path ?info"
    by (simp add: example_env_def example_digest_def)
  have g: "for_tasklets ?env ''/tasks''
     [''/tasks/broken/task.py'', ''/tasks/ok/task.py''] empty_registry =
   Inr \<lparr>available_tasks_by_path =
          [(''broken'', \<lparr>task_id = ''19f4b6de20c7a935'', path = ''broken'',
                          base_dir = ''/tasks'', description = ''no description''\<rparr>),
           (''ok'', \<lparr>task_id = ''e8a2504c6b31d77a'', path = ''ok'',
                      base_dir = ''/tasks'', description = ''no description''\<rparr>)],
        task_models = [(''ok'', ''e8a2504c6b31d77a'', JDict [(''title'', JStr ''/tasks/ok'')])],
        routes = [\<lparr>rule = ''/ok'', endpoint = ''ok''\<rparr>],
        logged = [Unable_to_register ''/tasks/broken'' (Exception ''cannot load''),
                  Registred_model ''/tasks/ok'']\<rparr>"
    by (simp add: process_tasklet_def try_register_def synthesize_def
        example_env_def example_runtime_def empty_registry_def dict_mem_def
        or_no_description_def Let_def path_simps example_digest_def)
  from failed_candidate_as_if_absent [OF a b c d e f, of "[''/tasks/ok/task.py'']"] g
  show ?thesis
    by (auto simp add: agree_but_def)
qed

text \<open>
  The agreement lasts through the rest of the pass: from two registries that agree but
  for the failed candidate, \<open>discover_tasks\<close> over any base directories raises the same
  exception or ends in registries that agree in the same way.
\<close>

theorem agreement_kept_by_discovery:
  assumes "agree_but k0 pre err r1 r2" and "\<forall>p. xxh64_hexdigest env p \<noteq> k0"
  shows "case discover_tasks env base_dirs r1 of
           Inl e \<Rightarrow> discover_tasks env base_dirs r2 = Inl e
         | Inr r1' \<Rightarrow>
             (\<exists>r2'. discover_tasks env base_dirs r2 = Inr r2' \<and> agree_but k0 pre err r1' r2')"
  using for_base_dirs_agree [OF assms, of base_dirs]
  by (simp only: discover_tasks_def)

theorem agreement_kept_by_discovery_witness:
  "case discover_tasks (example_env files_two_bases example_digest (\<lambda>d. Inr None)) [''/a'']
          (empty_registry\<lparr>available_tasks_by_path :=
              [(''broken'', \<lparr>task_id = ''19f4b6de20c7a935'', path = ''broken'',
                              base_dir = ''/tasks'', description = ''no description''\<rparr>)],
            logged := [Unable_to_register ''/tasks/broken'' (Exception ''cannot load'')]\<rparr>) of
     Inl e \<Rightarrow> False
   | Inr r1 \<Rightarrow>
       (\<exists>r2. discover_tasks (example_env files_two_bases example_digest (\<lambda>d. Inr None))
                [''/a''] empty_registry = Inr r2
            \<and> task_models r1 = task_models r2 \<and> routes r1 = routes r2
            \<and> map_of (available_tasks_by_path r1) ''t'' =
                map_of (available_tasks_by_path r2) ''t'')"
proof -
  let ?env = "example_env files_two_bases example_digest (\<lambda>d. Inr None)"
  let ?err = "Unable_to_register ''/tasks/broken'' (Exception ''cannot load'')"
  let ?r1 = "empty_registry\<lparr>available_tasks_by_path :=
              [(''broken'', \<lparr>task_id = ''19f4b6de20c7a935'', path = ''broken'',
                              base_dir = ''/tasks'', description = ''no description''\<rparr>)],
            logged := [?err]\<rparr>"
  have a: "agree_but ''broken'' [] ?err ?r1 empty_registry"
    by (simp add: agree_but_def extra_log_def empty_registry_def)
  have b: "\<forall>p. xxh64_hexdigest ?env p \<noteq> ''broken''"
    by (simp add: example_env_def example_digest_def)
  have c: "\<exists>r. discover_tasks ?env [''/a''] ?r1 = Inr r"
    by (simp add: discover_tasks_def process_tasklet_def try_register_def synthesize_def
        example_env_def example_runtime_def empty_registry_def dict_mem_def
        or_no_description_def Let_def path_simps files_two_bases_def example_digest_def)
  from agreement_kept_by_discovery [OF a b, of "[''/a'']"] c show ?thesis
    by (auto simp add: agree_but_def split: sum.splits)
qed

end
